theory Spec2Isabelle
  imports Main "HOL-Library.Word"
begin

unbundle bit_operations_syntax

section \<open>The hash_remap plugin (src/trafficserver/hash_remap.c)\<close>

text \<open>
  The plugin replaces the host of a request URL by the FNV hash of host and path, printed
  in hexadecimal, followed by a dot and a configured domain name. The model follows the C
  file function by function. Conventions:
  \<^item> a \<open>char *\<close> together with its length (a byte span) is a \<open>string\<close>, one \<open>char\<close>
    per byte;
  \<^item> \<open>uint64_t\<close> is \<open>64 word\<close>, so \<open>*\<close> wraps modulo \<open>2 ^ 64\<close>;
  \<^item> the lengths (\<open>int\<close>, \<open>size_t\<close>) are \<open>nat\<close>: they are lengths of configuration tokens
    and of formatted host names, far below \<open>2 ^ 31\<close>, and the code does no arithmetic on
    them that could wrap at such sizes;
  \<^item> a pointer that may be \<open>NULL\<close> is an \<open>option\<close>;
  \<^item> \<open>unsigned long\<close> (the \<open>%lx\<close> conversion) is 64 bits wide, as on every LP64 platform.
\<close>

subsection \<open>Plain char\<close>

text \<open>
  The hash functions read the bytes through a \<open>char *\<close> and convert each to \<open>uint64_t\<close>.
  Whether plain \<open>char\<close> is signed is fixed by the platform's ABI (signed on x86 and
  x86-64 with gcc and clang, unsigned on ARM Linux), so the model takes it as a parameter.
  Where \<open>char\<close> is signed, the conversion of a byte from \<open>0x80\<close> on sign-extends.
\<close>

datatype char_sign = Char_signed | Char_unsigned

definition char_to_uint64 :: "char_sign \<Rightarrow> char \<Rightarrow> 64 word" where
  "char_to_uint64 abi c =
     (case abi of
        Char_signed \<Rightarrow> scast (of_char c :: 8 word)
      | Char_unsigned \<Rightarrow> ucast (of_char c :: 8 word))"

subsection \<open>FNV hash\<close>

definition FNV1_64_INIT :: "64 word" where
  "FNV1_64_INIT = 0xcbf29ce484222325"

definition FNV_64_PRIME :: "64 word" where
  "FNV_64_PRIME = 0x100000001b3"

text \<open>
  \<open>hash_fnv64\<close>: \<open>hval\<close> starts at \<open>FNV1_64_INIT\<close>; the \<open>for\<close> loop multiplies and then
  xors, once per byte of the span.
\<close>

fun hash_fnv64_loop :: "char_sign \<Rightarrow> string \<Rightarrow> 64 word \<Rightarrow> 64 word" where
  "hash_fnv64_loop abi [] hval = hval"
| "hash_fnv64_loop abi (c # buf) hval =
     hash_fnv64_loop abi buf ((hval * FNV_64_PRIME) XOR char_to_uint64 abi c)"

definition hash_fnv64 :: "char_sign \<Rightarrow> string \<Rightarrow> 64 word" where
  "hash_fnv64 abi buf = hash_fnv64_loop abi buf FNV1_64_INIT"

text \<open>
  \<open>hash_fnv64_continue\<close> has its own copy of the loop and updates \<open>*hval\<close> in place; the
  model returns the new value.
\<close>

fun hash_fnv64_continue :: "char_sign \<Rightarrow> string \<Rightarrow> 64 word \<Rightarrow> 64 word" where
  "hash_fnv64_continue abi [] hval = hval"
| "hash_fnv64_continue abi (c # buf) hval =
     hash_fnv64_continue abi buf ((hval * FNV_64_PRIME) XOR char_to_uint64 abi c)"

text \<open>
  The hash as the specification words it: seed, then per byte a multiplication modulo
  \<open>2 ^ 64\<close> followed by an xor with the byte's unsigned value (\<open>0..255\<close>).
\<close>

definition fnv1_64_spec :: "string \<Rightarrow> 64 word" where
  "fnv1_64_spec bytes =
     foldl (\<lambda>acc b. (acc * 0x100000001b3) XOR of_nat (of_char b :: nat))
       0xcbf29ce484222325 bytes"

subsection \<open>C strings, memory blocks and formatting\<close>

definition NUL :: char where
  "NUL = CHR 0x00"

text \<open>The bytes of a C string: those before the first terminator.\<close>

definition cstring :: "string \<Rightarrow> string" where
  "cstring s = takeWhile (\<lambda>c. c \<noteq> NUL) s"

definition strlen :: "string \<Rightarrow> nat" where
  "strlen s = length (cstring s)"

definition TSstrdup :: "string \<Rightarrow> string" where
  "TSstrdup s = cstring s"

text \<open>
  A block returned by \<open>TSmalloc\<close> is the list of its bytes; the length of the list is the
  allocated size. The content of a fresh block is indeterminate in C; the plugin clears the
  block before each use, and the model starts it zeroed.
\<close>

definition TSmalloc :: "nat \<Rightarrow> string" where
  "TSmalloc n = replicate n NUL"

text \<open>
  Storing bytes at the start of a block: the bytes that fit replace the block's first
  bytes; the second component holds the bytes that are stored past the end of the
  allocation (none when everything fits). Neither \<open>memset\<close> nor \<open>sprintf\<close> checks the size
  of the block.
\<close>

definition store_bytes :: "string \<Rightarrow> string \<Rightarrow> string \<times> string" where
  "store_bytes block bs =
     (take (length block) bs @ drop (length bs) block, drop (length block) bs)"

definition memset_zero :: "string \<Rightarrow> nat \<Rightarrow> string \<times> string" where
  "memset_zero block n = store_bytes block (replicate n NUL)"

text \<open>
  The conversion \<open>%lx\<close>: lowercase hexadecimal digits, most significant first, as many as
  the value needs and at least one.
\<close>

definition hex_digit :: "nat \<Rightarrow> char" where
  "hex_digit d = ''0123456789abcdef'' ! d"

fun lx_digits :: "nat \<Rightarrow> string" where
  "lx_digits n =
     (if n < 16 then [hex_digit n] else lx_digits (n div 16) @ [hex_digit (n mod 16)])"

declare lx_digits.simps [simp del]

definition printf_lx :: "64 word \<Rightarrow> string" where
  "printf_lx w = lx_digits (unat w)"

text \<open>
  The call \<open>sprintf(buf, "%lx.%.*s", value, precision, str)\<close>: the text it produces, and
  the call itself, which stores the text and a terminator into the block and returns the
  length of the text without the terminator.
\<close>

definition format_lx_dot_s :: "64 word \<Rightarrow> nat \<Rightarrow> string \<Rightarrow> string" where
  "format_lx_dot_s v precision str = printf_lx v @ ''.'' @ take precision (cstring str)"

definition sprintf_lx_dot_s ::
  "string \<Rightarrow> 64 word \<Rightarrow> nat \<Rightarrow> string \<Rightarrow> (string \<times> string) \<times> nat" where
  "sprintf_lx_dot_s block v precision str =
     (let text = format_lx_dot_s v precision str
      in (store_bytes block (text @ [NUL]), length text))"

text \<open>
  Reading a hexadecimal numeral back, to say what \<open>%lx\<close> prints without reference to
  \<open>lx_digits\<close>.
\<close>

definition hex_digit_value :: "char \<Rightarrow> nat" where
  "hex_digit_value c = length (takeWhile (\<lambda>d. d \<noteq> c) ''0123456789abcdef'')"

definition hex_value :: "string \<Rightarrow> nat" where
  "hex_value s = foldl (\<lambda>acc c. 16 * acc + hex_digit_value c) 0 s"

subsection \<open>The instance and its construction\<close>

record hash_remap_struct =
  isp_name :: string
  isp_name_len :: nat
  hash :: string
  hash_len :: nat

text \<open>
  \<open>argv\<close> is an array of string pointers. The caller passes \<open>argc\<close> entries followed by a
  \<open>NULL\<close> entry; a read past the cells given is modelled as \<open>NULL\<close> too.
\<close>

definition argv_at :: "string option list \<Rightarrow> nat \<Rightarrow> string option" where
  "argv_at argv i = (if i < length argv then argv ! i else None)"

text \<open>
  \<open>TSRemapNewInstance\<close> returns \<open>-1\<close> and leaves \<open>*ih\<close> alone, or returns \<open>0\<close> and stores
  the new instance in \<open>*ih\<close>.
\<close>

definition TSRemapNewInstance ::
  "int \<Rightarrow> string option list \<Rightarrow> int \<times> hash_remap_struct option" where
  "TSRemapNewInstance argc argv =
     (if argc < 2 then (- 1, None)
      else case argv_at argv 2 of
        None \<Rightarrow> (- 1, None)
      | Some arg2 \<Rightarrow>
          (let name = TSstrdup arg2;
               name_len = strlen name;
               size = (8 * 1) * 2 + name_len + 1
           in (0, Some \<lparr>isp_name = name, isp_name_len = name_len,
                        hash = TSmalloc size, hash_len = size\<rparr>)))"

subsection \<open>The request and the Traffic Server URL interface\<close>

datatype TSReturnCode = TS_ERROR | TS_SUCCESS

datatype TSRemapStatus = TSREMAP_NO_REMAP | TSREMAP_DID_REMAP

text \<open>
  The request URL as the plugin sees it through \<open>rri->requestBufp\<close> and
  \<open>rri->requestUrl\<close>: its host, its path, and the server's decision whether a given
  new host is refused.
\<close>

record TSRemapRequestInfo =
  requestUrl_host :: string
  requestUrl_path :: string
  requestUrl_refuses :: "string \<Rightarrow> bool"

text \<open>
  Modelled from the spec: \<open>TSUrlHostGet\<close>, \<open>TSUrlPathGet\<close> and \<open>TSUrlHostSet\<close> are
  functions of Traffic Server, outside this repository. Section 6 of the specification
  gives their interface: \<open>GetHost\<close> and \<open>GetPath\<close> return the bytes and their length,
  \<open>SetHost\<close> takes bytes and a length and reports success or failure; a failed \<open>SetHost\<close>
  leaves the request as it was (the comment in \<open>TSRemapDoRemap\<close> says the same: "the
  request was not modified").
\<close>

definition TSUrlHostGet :: "TSRemapRequestInfo \<Rightarrow> string" where
  "TSUrlHostGet rri = requestUrl_host rri"

definition TSUrlPathGet :: "TSRemapRequestInfo \<Rightarrow> string" where
  "TSUrlPathGet rri = requestUrl_path rri"

definition TSUrlHostSet ::
  "TSRemapRequestInfo \<Rightarrow> string \<Rightarrow> nat \<Rightarrow> TSReturnCode \<times> TSRemapRequestInfo" where
  "TSUrlHostSet rri buf len =
     (if requestUrl_refuses rri (take len buf) then (TS_ERROR, rri)
      else (TS_SUCCESS, rri\<lparr>requestUrl_host := take len buf\<rparr>))"

subsection \<open>The remap step\<close>

text \<open>
  What a call of \<open>TSRemapDoRemap\<close> leaves behind: the status it returns, the request and
  the instance after the call, and the bytes that \<open>memset\<close> and \<open>sprintf\<close> stored past the
  end of the block \<open>hash->hash\<close>.
\<close>

record remap_result =
  status :: TSRemapStatus
  rri_after :: "TSRemapRequestInfo option"
  ih_after :: "hash_remap_struct option"
  overrun :: string

definition TSRemapDoRemap ::
  "char_sign \<Rightarrow> hash_remap_struct option \<Rightarrow> TSRemapRequestInfo option \<Rightarrow> remap_result" where
  "TSRemapDoRemap abi ih rri =
     (case rri of
        None \<Rightarrow>
          \<lparr>status = TSREMAP_NO_REMAP, rri_after = rri, ih_after = ih, overrun = []\<rparr>
      | Some r \<Rightarrow>
         (case ih of
            None \<Rightarrow>
              \<lparr>status = TSREMAP_NO_REMAP, rri_after = rri, ih_after = ih, overrun = []\<rparr>
          | Some h \<Rightarrow>
             (let req_host = TSUrlHostGet r;
                  req_path = TSUrlPathGet r;
                  hash_value = hash_fnv64 abi req_host;
                  hash_value = hash_fnv64_continue abi req_path hash_value;
                  (cleared, over1) = memset_zero (hash h) (hash_len h);
                  ((buf, over2), len) =
                     sprintf_lx_dot_s cleared hash_value (isp_name_len h) (isp_name h);
                  h' = h\<lparr>hash := buf\<rparr>
              in if len > hash_len h then
                   \<lparr>status = TSREMAP_NO_REMAP, rri_after = Some r, ih_after = Some h',
                    overrun = over1 @ over2\<rparr>
                 else
                   (case TSUrlHostSet r buf len of
                      (TS_SUCCESS, r') \<Rightarrow>
                        \<lparr>status = TSREMAP_DID_REMAP, rri_after = Some r',
                         ih_after = Some h', overrun = over1 @ over2\<rparr>
                    | (TS_ERROR, r') \<Rightarrow>
                        \<lparr>status = TSREMAP_NO_REMAP, rri_after = Some r',
                         ih_after = Some h', overrun = over1 @ over2\<rparr>))))"

text \<open>
  The instances the plugin works with: the name is a C string, \<open>isp_name_len\<close> is its
  length, and \<open>hash\<close> is a block of \<open>hash_len\<close> bytes, with \<open>hash_len\<close> as
  \<open>TSRemapNewInstance\<close> computes it.
\<close>

definition instance_ok :: "hash_remap_struct \<Rightarrow> bool" where
  "instance_ok h \<longleftrightarrow>
     cstring (isp_name h) = isp_name h \<and>
     isp_name_len h = length (isp_name h) \<and>
     hash_len h = 16 + length (isp_name h) + 1 \<and>
     length (hash h) = hash_len h"

section \<open>The hash functions\<close>

lemma hash_fnv64_loop_append:
  "hash_fnv64_loop abi (h @ p) hval = hash_fnv64_loop abi p (hash_fnv64_loop abi h hval)"
  by (induction h arbitrary: hval) simp_all

lemma hash_fnv64_continue_is_loop:
  "hash_fnv64_continue abi buf hval = hash_fnv64_loop abi buf hval"
  by (induction buf arbitrary: hval) simp_all

text \<open>
  Claim C10. Applying the continuation form to an accumulator that holds the seed
  \<open>0xcbf29ce484222325\<close> gives the one-shot hash of the span: the two loops compute the
  same fold.
\<close>

theorem continue_from_seed_is_hash:
  "hash_fnv64_continue abi buf 0xcbf29ce484222325 = hash_fnv64 abi buf"
  by (simp add: hash_fnv64_continue_is_loop hash_fnv64_def FNV1_64_INIT_def)

text \<open>
  Claim C4. Hashing \<open>h\<close> and then folding \<open>p\<close> into the digest with the continuation form
  gives the digest of the concatenation \<open>h @ p\<close> hashed in one pass.
\<close>

theorem hash_then_continue_is_hash_append:
  "hash_fnv64_continue abi p (hash_fnv64 abi h) = hash_fnv64 abi (h @ p)"
  by (simp add: hash_fnv64_continue_is_loop hash_fnv64_def hash_fnv64_loop_append)

text \<open>
  Claim C6. The hash of the empty span is the seed \<open>0xcbf29ce484222325\<close>, which \<open>%lx\<close>
  prints as \<open>cbf29ce484222325\<close>, and folding the empty span into any digest leaves the
  digest as it is.
\<close>

theorem hash_of_empty_span:
  "hash_fnv64 abi [] = 0xcbf29ce484222325 \<and>
   printf_lx (hash_fnv64 abi []) = ''cbf29ce484222325'' \<and>
   hash_fnv64_continue abi [] hval = hval"
  by (simp add: hash_fnv64_def FNV1_64_INIT_def printf_lx_def lx_digits.simps hex_digit_def)

section \<open>The hash against the specification's wording\<close>

lemma char_unsigned_val: "char_to_uint64 Char_unsigned c = of_nat (of_char c :: nat)"
proof -
  have "take_bit 8 (of_char c :: nat) = of_char c"
    by (simp add: take_bit_nat_eq_self)
  then have "ucast (of_nat (of_char c :: nat) :: 8 word) = (of_nat (of_char c :: nat) :: 64 word)"
    by (simp add: unsigned_of_nat)
  then show ?thesis
    by (simp add: char_to_uint64_def of_nat_of_char)
qed

lemma char_signed_ascii:
  assumes "(of_char c :: nat) < 128"
  shows "char_to_uint64 Char_signed c = of_nat (of_char c :: nat)"
proof -
  have "signed_take_bit 7 (int (of_char c)) = int (of_char c)"
    using assms by (simp add: signed_take_bit_int_eq_self)
  then have "scast (of_nat (of_char c :: nat) :: 8 word) = (of_nat (of_char c :: nat) :: 64 word)"
    by (simp add: signed_of_nat)
  then show ?thesis
    by (simp add: char_to_uint64_def of_nat_of_char)
qed

lemma hash_fnv64_loop_unsigned:
  "hash_fnv64_loop Char_unsigned bs acc =
   foldl (\<lambda>acc b. (acc * 0x100000001b3) XOR of_nat (of_char b :: nat)) acc bs"
  by (induction bs arbitrary: acc) (simp_all add: char_unsigned_val FNV_64_PRIME_def)

lemma hash_fnv64_loop_ascii:
  "\<forall>c\<in>set bs. (of_char c :: nat) < 128 \<Longrightarrow>
   hash_fnv64_loop abi bs acc =
   foldl (\<lambda>acc b. (acc * 0x100000001b3) XOR of_nat (of_char b :: nat)) acc bs"
  by (induction bs arbitrary: acc; cases abi)
    (simp_all add: char_unsigned_val char_signed_ascii FNV_64_PRIME_def)

text \<open>
  Where plain \<open>char\<close> is unsigned the code computes the hash of the specification on
  every span, and where it is signed it does so on every span of bytes below \<open>0x80\<close>.
\<close>

lemma hash_fnv64_unsigned_is_spec: "hash_fnv64 Char_unsigned bs = fnv1_64_spec bs"
  by (simp add: hash_fnv64_def fnv1_64_spec_def hash_fnv64_loop_unsigned FNV1_64_INIT_def)

lemma hash_fnv64_ascii_is_spec:
  "\<forall>c\<in>set bs. (of_char c :: nat) < 128 \<Longrightarrow> hash_fnv64 abi bs = fnv1_64_spec bs"
  by (simp add: hash_fnv64_def fnv1_64_spec_def hash_fnv64_loop_ascii FNV1_64_INIT_def)

text \<open>
  The value the comment at the head of the C file gives for \<open>www.example\<close>, the output
  of the reference program \<open>fnv164\<close>.
\<close>

lemma hash_fnv64_www_example: "hash_fnv64 abi ''www.example'' = 0x24d4dc434ba8a1da"
  by (cases abi)
    (simp_all add: hash_fnv64_def FNV1_64_INIT_def FNV_64_PRIME_def char_to_uint64_def)

text \<open>
  With signed \<open>char\<close>, the conversion of a byte from \<open>0x80\<close> on yields the byte's value
  minus 256, modulo \<open>2 ^ 64\<close>: the upper 56 bits are set.
\<close>

lemma signed_take_bit_7_high:
  assumes "128 \<le> k" "k < (256::int)"
  shows "signed_take_bit 7 k = k - 256"
proof -
  have "k div 128 = 1" using assms by simp
  then have "bit k 7" by (simp add: bit_iff_odd)
  moreover have "take_bit 8 k = k" using assms by (simp add: take_bit_int_eq_self)
  ultimately show ?thesis
    by (simp add: signed_take_bit_eq_take_bit_minus)
qed

lemma char_signed_high:
  assumes "128 \<le> (of_char c :: nat)"
  shows "char_to_uint64 Char_signed c = of_nat (of_char c :: nat) - 256"
proof -
  have "(of_char c :: nat) < 256" by simp
  with assms have "signed_take_bit 7 (int (of_char c)) = int (of_char c) - 256"
    by (intro signed_take_bit_7_high) simp_all
  then have "scast (of_nat (of_char c :: nat) :: 8 word) = (of_nat (of_char c :: nat) - 256 :: 64 word)"
    by (simp add: signed_of_nat)
  then show ?thesis
    by (simp add: char_to_uint64_def of_nat_of_char)
qed

lemma xor_left_cancel: "(x XOR a = x XOR b) = (a = (b :: 64 word))"
  by (metis (no_types, lifting) bit.xor_self word_bw_assocs(3) xor.right_neutral)

text \<open>
  With signed \<open>char\<close>, a byte from \<open>0x80\<close> on after bytes below \<open>0x80\<close> always gives a
  digest other than the specification's.
\<close>

lemma hash_fnv64_signed_high_last:
  assumes low: "\<forall>b\<in>set bs. (of_char b :: nat) < 128" and high: "128 \<le> (of_char c :: nat)"
  shows "hash_fnv64 Char_signed (bs @ [c]) \<noteq> fnv1_64_spec (bs @ [c])"
proof -
  have pre: "hash_fnv64_loop Char_signed bs FNV1_64_INIT = fnv1_64_spec bs"
    using hash_fnv64_ascii_is_spec [OF low, of Char_signed] by (simp add: hash_fnv64_def)
  have "(of_nat (of_char c :: nat) - 256 :: 64 word) \<noteq> of_nat (of_char c :: nat)"
    by simp
  then show ?thesis
    by (simp add: hash_fnv64_def hash_fnv64_loop_append pre fnv1_64_spec_def
        char_signed_high [OF high] FNV_64_PRIME_def xor_left_cancel of_nat_of_char)
qed

text \<open>
  Claim C1. The claim: the digest starts from the seed \<open>0xcbf29ce484222325\<close> and, byte by
  byte from the left, multiplies by \<open>0x100000001b3\<close> modulo \<open>2 ^ 64\<close> and then xors with the
  byte's unsigned value, for every byte including those from \<open>0x80\<close> on. Where plain
  \<open>char\<close> is signed, \<open>(uint64_t)*buf\<close> sign-extends such a byte: on the one-byte span
  \<open>0x80\<close> the code xors with \<open>0xffffffffffffff80\<close> and returns \<open>0x509c42b379fe485f\<close>, while
  the hash of the claim is \<open>0xaf63bd4c8601b75f\<close>.
\<close>

theorem hash_fnv64_signed_char_high_byte:
  "char_to_uint64 Char_signed (CHR 0x80) = 0xffffffffffffff80 \<and>
   hash_fnv64 Char_signed [CHR 0x80] = 0x509c42b379fe485f \<and>
   fnv1_64_spec [CHR 0x80] = 0xaf63bd4c8601b75f"
  by (simp add: hash_fnv64_def FNV1_64_INIT_def FNV_64_PRIME_def char_to_uint64_def
      fnv1_64_spec_def)

section \<open>The \<open>%lx\<close> conversion\<close>

lemma lx_digits_not_Nil: "lx_digits n \<noteq> []"
  by (subst lx_digits.simps) simp

lemma lx_digits_length_le: "n < 16 ^ Suc k \<Longrightarrow> length (lx_digits n) \<le> Suc k"
proof (induction k arbitrary: n)
  case 0
  then show ?case by (simp add: lx_digits.simps)
next
  case (Suc k)
  show ?case
  proof (cases "n < 16")
    case True
    then show ?thesis by (simp add: lx_digits.simps)
  next
    case False
    from Suc.prems have "n div 16 < 16 ^ Suc k"
      by (simp add: less_mult_imp_div_less mult.commute)
    then have "length (lx_digits (n div 16)) \<le> Suc k"
      by (rule Suc.IH)
    with False show ?thesis
      by (subst lx_digits.simps) simp
  qed
qed

lemma lx_digits_length_ge: "16 ^ k \<le> n \<Longrightarrow> Suc k \<le> length (lx_digits n)"
proof (induction k arbitrary: n)
  case 0
  have "lx_digits n \<noteq> []" by (rule lx_digits_not_Nil)
  then show ?case by (cases "lx_digits n") simp_all
next
  case (Suc k)
  have "(1::nat) \<le> 16 ^ k" by simp
  then have "(16::nat) \<le> 16 * 16 ^ k" by simp
  moreover from Suc.prems have "16 * 16 ^ k \<le> n" by simp
  ultimately have "16 \<le> n" by (rule order_trans)
  with Suc.prems have big: "\<not> n < 16" "16 ^ k \<le> n div 16"
    by (simp_all add: less_eq_div_iff_mult_less_eq mult.commute)
  from big(2) have "Suc k \<le> length (lx_digits (n div 16))"
    by (rule Suc.IH)
  with big(1) show ?case
    by (subst lx_digits.simps) simp
qed

lemma printf_lx_length: "1 \<le> length (printf_lx w) \<and> length (printf_lx w) \<le> 16"
proof -
  have "unat w < 2 ^ 64" using unsigned_less [of w] by simp
  then have "unat w < 16 ^ Suc 15" by simp
  then have "length (lx_digits (unat w)) \<le> Suc 15" by (rule lx_digits_length_le)
  moreover have "Suc 0 \<le> length (lx_digits (unat w))"
    using lx_digits_not_Nil [of "unat w"] by (cases "lx_digits (unat w)") simp_all
  ultimately show ?thesis by (simp add: printf_lx_def)
qed

lemma printf_lx_full_width: "length (printf_lx w) = 16 \<longleftrightarrow> 2 ^ 60 \<le> unat w"
proof
  assume "2 ^ 60 \<le> unat w"
  then have "16 ^ 15 \<le> unat w" by simp
  then have "Suc 15 \<le> length (lx_digits (unat w))" by (rule lx_digits_length_ge)
  with printf_lx_length [of w] show "length (printf_lx w) = 16"
    by (simp add: printf_lx_def)
next
  assume full: "length (printf_lx w) = 16"
  show "2 ^ 60 \<le> unat w"
  proof (rule ccontr)
    assume "\<not> 2 ^ 60 \<le> unat w"
    then have "unat w < 16 ^ Suc 14" by simp
    then have "length (lx_digits (unat w)) \<le> Suc 14" by (rule lx_digits_length_le)
    with full show False by (simp add: printf_lx_def)
  qed
qed

lemma distinct_hex_digits: "distinct ''0123456789abcdef''"
  by simp

lemma hex_digit_value_hex_digit:
  assumes "d < 16"
  shows "hex_digit_value (hex_digit d) = d"
proof -
  let ?ds = "''0123456789abcdef''"
  have "takeWhile (\<lambda>c. c \<noteq> ?ds ! d) ?ds = take d ?ds"
  proof (rule takeWhile_eq_take_P_nth)
    fix i
    assume "i < d" "i < length ?ds"
    with assms show "?ds ! i \<noteq> ?ds ! d"
      using nth_eq_iff_index_eq [OF distinct_hex_digits, of i d] by simp
  qed simp
  with assms show ?thesis
    by (simp add: hex_digit_value_def hex_digit_def)
qed

lemma hex_digit_in_set: "d < 16 \<Longrightarrow> hex_digit d \<in> set ''0123456789abcdef''"
  unfolding hex_digit_def by (rule nth_mem) simp

lemma hex_digit_zero:
  assumes "d < 16"
  shows "hex_digit d = CHR ''0'' \<longleftrightarrow> d = 0"
proof -
  have "hex_digit d = hex_digit 0 \<longleftrightarrow> d = 0"
    unfolding hex_digit_def
    using assms nth_eq_iff_index_eq [OF distinct_hex_digits, of d 0] by simp
  then show ?thesis by (simp add: hex_digit_def)
qed

lemma hex_value_snoc: "hex_value (s @ [c]) = 16 * hex_value s + hex_digit_value c"
  by (simp add: hex_value_def)

lemma hex_value_lx_digits: "hex_value (lx_digits n) = n"
proof (induction n rule: lx_digits.induct)
  case (1 n)
  show ?case
  proof (cases "n < 16")
    case True
    then show ?thesis
      by (subst lx_digits.simps) (simp add: hex_value_def hex_digit_value_hex_digit)
  next
    case False
    with 1 have "hex_value (lx_digits (n div 16)) = n div 16" by simp
    with False show ?thesis
      by (subst lx_digits.simps) (simp add: hex_value_snoc hex_digit_value_hex_digit)
  qed
qed

lemma set_lx_digits: "set (lx_digits n) \<subseteq> set ''0123456789abcdef''"
proof (induction n rule: lx_digits.induct)
  case (1 n)
  show ?case
  proof (cases "n < 16")
    case True
    then show ?thesis
      using hex_digit_in_set [of n] by (subst lx_digits.simps) simp
  next
    case False
    with 1 have "set (lx_digits (n div 16)) \<subseteq> set ''0123456789abcdef''" by simp
    with False show ?thesis
      using hex_digit_in_set [of "n mod 16"] by (subst lx_digits.simps) simp
  qed
qed

lemma hd_lx_digits: "hd (lx_digits n) = CHR ''0'' \<longleftrightarrow> n = 0"
proof (induction n rule: lx_digits.induct)
  case (1 n)
  show ?case
  proof (cases "n < 16")
    case True
    then show ?thesis
      by (subst lx_digits.simps) (simp add: hex_digit_zero)
  next
    case False
    with 1 have "hd (lx_digits (n div 16)) = CHR ''0'' \<longleftrightarrow> n div 16 = 0" by simp
    moreover from False have "n div 16 \<noteq> 0" by simp
    ultimately show ?thesis
      using False by (subst lx_digits.simps) (simp add: lx_digits_not_Nil)
  qed
qed

section \<open>Writing the scratch block\<close>

lemma memset_zero_whole: "memset_zero block (length block) = (replicate (length block) NUL, [])"
  by (simp add: memset_zero_def store_bytes_def)

lemma store_text_and_terminator:
  assumes "length text \<le> n"
  shows "store_bytes (replicate n NUL) (text @ [NUL]) =
           (text @ replicate (n - length text) NUL, if length text = n then [NUL] else [])"
proof (cases "length text = n")
  case True
  then show ?thesis by (simp add: store_bytes_def)
next
  case False
  with assms have lt: "length text < n" by simp
  then have "[NUL] @ replicate (n - Suc (length text)) NUL = replicate (n - length text) NUL"
    by (simp add: Suc_diff_Suc flip: replicate_Suc)
  with lt show ?thesis by (simp add: store_bytes_def)
qed

lemma format_lx_dot_s_length: "length (format_lx_dot_s v precision str) \<le> 16 + 1 + precision"
  using printf_lx_length [of v] by (simp add: format_lx_dot_s_def min_def)

lemma format_lx_dot_s_instance:
  "instance_ok h \<Longrightarrow>
   format_lx_dot_s v (isp_name_len h) (isp_name h) = printf_lx v @ ''.'' @ isp_name h"
  by (simp add: instance_ok_def format_lx_dot_s_def)

lemma do_remap_instance_ok:
  fixes abi :: char_sign and h :: hash_remap_struct and r :: TSRemapRequestInfo
  assumes ok: "instance_ok h"
  defines "text \<equiv>
    printf_lx (hash_fnv64 abi (requestUrl_host r @ requestUrl_path r)) @ ''.'' @ isp_name h"
  shows "TSRemapDoRemap abi (Some h) (Some r) =
     \<lparr>status = (if requestUrl_refuses r text then TSREMAP_NO_REMAP else TSREMAP_DID_REMAP),
      rri_after = Some (if requestUrl_refuses r text then r else r\<lparr>requestUrl_host := text\<rparr>),
      ih_after = Some (h\<lparr>hash := text @ replicate (hash_len h - length text) NUL\<rparr>),
      overrun = (if length text = hash_len h then [NUL] else [])\<rparr>"
proof -
  let ?d = "hash_fnv64_continue abi (requestUrl_path r) (hash_fnv64 abi (requestUrl_host r))"
  have d: "?d = hash_fnv64 abi (requestUrl_host r @ requestUrl_path r)"
    by (simp add: hash_fnv64_continue_is_loop hash_fnv64_def hash_fnv64_loop_append)
  have fmt: "format_lx_dot_s ?d (isp_name_len h) (isp_name h) = text"
    using ok by (simp add: format_lx_dot_s_instance d text_def)
  have len: "length text \<le> hash_len h"
    using format_lx_dot_s_length [of ?d "isp_name_len h" "isp_name h"] ok
    by (simp add: fmt instance_ok_def)
  have clear: "memset_zero (hash h) (hash_len h) = (replicate (hash_len h) NUL, [])"
    using ok memset_zero_whole [of "hash h"] by (simp add: instance_ok_def)
  have store: "sprintf_lx_dot_s (replicate (hash_len h) NUL) ?d (isp_name_len h) (isp_name h) =
      ((text @ replicate (hash_len h - length text) NUL,
        if length text = hash_len h then [NUL] else []), length text)"
    using len by (simp add: sprintf_lx_dot_s_def fmt store_text_and_terminator)
  show ?thesis
    using len
    by (simp add: TSRemapDoRemap_def TSUrlHostGet_def TSUrlPathGet_def clear store
        TSUrlHostSet_def)
qed

section \<open>Instances\<close>

lemma remap_text_fits:
  "instance_ok h \<Longrightarrow> length (printf_lx v @ ''.'' @ isp_name h) \<le> hash_len h"
  using printf_lx_length [of v] by (simp add: instance_ok_def)

lemma cstring_idem: "cstring (cstring s) = cstring s"
  by (simp add: cstring_def)

lemma new_instance_ok:
  assumes "TSRemapNewInstance argc argv = (0, Some h)"
  shows "instance_ok h"
  using assms
  by (auto simp: TSRemapNewInstance_def instance_ok_def TSstrdup_def strlen_def TSmalloc_def
      cstring_idem Let_def split: if_splits option.splits)

lemma do_remap_keeps_instance_ok:
  assumes "instance_ok h"
  shows "\<exists>h'. ih_after (TSRemapDoRemap abi (Some h) (Some r)) = Some h' \<and> instance_ok h' \<and>
     isp_name h' = isp_name h"
proof -
  let ?text = "printf_lx (hash_fnv64 abi (requestUrl_host r @ requestUrl_path r)) @ ''.'' @
    isp_name h"
  have "length ?text \<le> hash_len h"
    using assms by (rule remap_text_fits)
  with assms show ?thesis
    by (simp add: do_remap_instance_ok instance_ok_def)
qed

text \<open>
  The terminator lands past the end of the block exactly when the digest has sixteen
  hexadecimal digits, that is from \<open>2 ^ 60\<close> on.
\<close>

lemma do_remap_overrun:
  assumes "instance_ok h"
  shows "overrun (TSRemapDoRemap abi (Some h) (Some r)) =
     (if 2 ^ 60 \<le> unat (hash_fnv64 abi (requestUrl_host r @ requestUrl_path r))
      then [NUL] else [])"
proof -
  let ?d = "hash_fnv64 abi (requestUrl_host r @ requestUrl_path r)"
  have "length (isp_name h) + 17 = hash_len h"
    using assms by (simp add: instance_ok_def)
  then have "length (printf_lx ?d @ ''.'' @ isp_name h) = hash_len h \<longleftrightarrow>
      length (printf_lx ?d) = 16"
    by auto
  then show ?thesis
    by (simp only: do_remap_instance_ok [OF assms] printf_lx_full_width
        remap_result.simps)
qed

text \<open>
  Claim C2. The claim: the scratch buffer is allocated with at least
  \<open>16 + 1 + suffixLength + 1\<close> bytes, the formatting step never writes more bytes than the
  capacity, and the formatted length without the terminator is at most
  \<open>16 + 1 + suffixLength\<close>. The code allocates \<open>16 + suffixLength + 1\<close> bytes: the
  terminator that \<open>sprintf\<close> stores is not counted. On the example of the comment at the
  head of the C file (suffix \<open>tlmc.isp.example\<close>, request for \<open>http://www.example/\<close>) the
  block has 33 bytes, the text \<open>24d4dc434ba8a1da.tlmc.isp.example\<close> has 33 bytes, and the
  terminator is stored past the end of the block.
\<close>

theorem scratch_overrun_on_documented_example:
  "TSRemapNewInstance 3
      [Some ''http://(.*)/'', Some ''http://kaa.k.se.$0/'', Some ''tlmc.isp.example'', None] =
     (0, Some \<lparr>isp_name = ''tlmc.isp.example'', isp_name_len = 16,
               hash = replicate 33 NUL, hash_len = 33\<rparr>) \<and>
   format_lx_dot_s (hash_fnv64 abi ''www.example'') 16 ''tlmc.isp.example'' =
     ''24d4dc434ba8a1da.tlmc.isp.example'' \<and>
   overrun (TSRemapDoRemap abi
      (Some \<lparr>isp_name = ''tlmc.isp.example'', isp_name_len = 16,
              hash = replicate 33 NUL, hash_len = 33\<rparr>)
      (Some \<lparr>requestUrl_host = ''www.example'', requestUrl_path = '''',
              requestUrl_refuses = (\<lambda>s. False)\<rparr>)) = [NUL]"
proof -
  let ?h = "\<lparr>isp_name = ''tlmc.isp.example'', isp_name_len = 16,
               hash = replicate 33 NUL, hash_len = 33\<rparr>"
  have new: "TSRemapNewInstance 3
      [Some ''http://(.*)/'', Some ''http://kaa.k.se.$0/'', Some ''tlmc.isp.example'', None] =
     (0, Some ?h)"
    by (simp add: TSRemapNewInstance_def argv_at_def TSstrdup_def strlen_def cstring_def
        NUL_def TSmalloc_def)
  then have ok: "instance_ok ?h" by (rule new_instance_ok)
  have fmt: "format_lx_dot_s (hash_fnv64 abi ''www.example'') 16 ''tlmc.isp.example'' =
     ''24d4dc434ba8a1da.tlmc.isp.example''"
    by (simp add: hash_fnv64_www_example format_lx_dot_s_def printf_lx_def lx_digits.simps
        hex_digit_def cstring_def NUL_def)
  have "overrun (TSRemapDoRemap abi (Some ?h)
      (Some \<lparr>requestUrl_host = ''www.example'', requestUrl_path = '''',
              requestUrl_refuses = (\<lambda>s. False)\<rparr>)) = [NUL]"
    by (simp add: do_remap_overrun [OF ok] hash_fnv64_www_example)
  with new fmt show ?thesis by simp
qed

section \<open>Construction and the remap step\<close>

lemma printf_lx_zero: "printf_lx 0 = ''0''"
  by (simp add: printf_lx_def lx_digits.simps hex_digit_def)

lemma printf_lx_leading_zero: "hd (printf_lx w) = CHR ''0'' \<longleftrightarrow> printf_lx w = ''0''"
proof
  assume "hd (printf_lx w) = CHR ''0''"
  then have "unat w = 0" by (simp add: printf_lx_def hd_lx_digits)
  then have "w = 0" by (simp add: unat_eq_0)
  then show "printf_lx w = ''0''" by (simp add: printf_lx_zero)
qed simp

text \<open>
  Claim C3, as stated, fails: the third token may be the empty string. The code tests the
  pointer \<open>argv[2]\<close> against \<open>NULL\<close> and nothing else, so construction succeeds with an
  empty suffix.
\<close>

theorem new_instance_accepts_empty_suffix:
  "TSRemapNewInstance 3 [Some ''http://(.*)/'', Some ''http://kaa.k.se.$0/'', Some '''', None] =
     (0, Some \<lparr>isp_name = '''', isp_name_len = 0, hash = replicate 17 NUL, hash_len = 17\<rparr>)"
  by (simp add: TSRemapNewInstance_def argv_at_def TSstrdup_def strlen_def cstring_def
      TSmalloc_def)

text \<open>
  Claim C3, amended. For an argument vector of \<open>argc\<close> cells followed by \<open>NULL\<close>:
  with fewer than 3 cells, or with a third cell that is \<open>NULL\<close>, construction returns
  \<open>-1\<close> and produces no instance; with at least 3 cells and a third cell that points to a
  string (the empty string included), construction returns \<open>0\<close> and an instance that holds
  the string, its length, and a scratch block of the recorded size.
\<close>

theorem new_instance_fails_iff_third_token_absent:
  fixes cells :: "string option list"
  defines "res \<equiv> TSRemapNewInstance (int (length cells)) (cells @ [None])"
  shows "(length cells < 3 \<or> cells ! 2 = None \<longrightarrow> res = (- 1, None)) \<and>
         (\<forall>s. 3 \<le> length cells \<and> cells ! 2 = Some s \<longrightarrow>
            (\<exists>h. res = (0, Some h) \<and> isp_name h = cstring s \<and>
                 isp_name_len h = length (cstring s) \<and> length (hash h) = hash_len h))"
proof -
  consider "length cells < 2" | "length cells = 2" | "3 \<le> length cells" by linarith
  then show ?thesis
  proof cases
    case 1
    then show ?thesis by (simp add: res_def TSRemapNewInstance_def)
  next
    case 2
    then show ?thesis by (simp add: res_def TSRemapNewInstance_def argv_at_def nth_append)
  next
    case 3
    then have "argv_at (cells @ [None]) 2 = cells ! 2"
      by (simp add: argv_at_def nth_append)
    with 3 show ?thesis
      by (auto simp: res_def TSRemapNewInstance_def TSstrdup_def strlen_def TSmalloc_def
          cstring_idem Let_def)
  qed
qed

theorem new_instance_fails_iff_third_token_absent_witness:
  "TSRemapNewInstance 2 [Some ''http://(.*)/'', Some ''http://kaa.k.se.$0/'', None] = (- 1, None) \<and>
   (\<exists>h. TSRemapNewInstance 3
          [Some ''http://(.*)/'', Some ''http://kaa.k.se.$0/'', Some ''tlmc.isp.example'', None] =
            (0, Some h) \<and>
        isp_name h = ''tlmc.isp.example'' \<and>
        isp_name_len h = length ''tlmc.isp.example'' \<and>
        length (hash h) = hash_len h)"
  using new_instance_fails_iff_third_token_absent
          [of "[Some ''http://(.*)/'', Some ''http://kaa.k.se.$0/'']"]
        new_instance_fails_iff_third_token_absent
          [of "[Some ''http://(.*)/'', Some ''http://kaa.k.se.$0/'', Some ''tlmc.isp.example'']"]
  by (simp add: cstring_def NUL_def)

text \<open>
  Claim C5. For every request, the digest is the hash of the host bytes followed directly
  by the path bytes; the text written to the scratch block and handed to \<open>TSUrlHostSet\<close>
  (which either refuses exactly this text or makes it the host) is the digest in lowercase
  hexadecimal, a dot, and the bytes of the configured name. The hexadecimal part consists of
  digits \<open>0-9a-f\<close> only (so no \<open>0x\<close> prefix), reads back as the digest, has between 1 and
  16 digits, and starts with \<open>0\<close> only when it is the single digit \<open>0\<close> (no padding).
\<close>

theorem remap_sets_host_to_hex_digest_dot_suffix:
  fixes abi :: char_sign and h :: hash_remap_struct and r :: TSRemapRequestInfo
  assumes "instance_ok h"
  defines "digest \<equiv> hash_fnv64 abi (requestUrl_host r @ requestUrl_path r)"
  defines "new_host \<equiv> printf_lx digest @ ''.'' @ isp_name h"
  defines "res \<equiv> TSRemapDoRemap abi (Some h) (Some r)"
  shows "map_option hash (ih_after res) =
           Some (new_host @ replicate (hash_len h - length new_host) NUL) \<and>
         status res =
           (if requestUrl_refuses r new_host then TSREMAP_NO_REMAP else TSREMAP_DID_REMAP) \<and>
         rri_after res =
           Some (if requestUrl_refuses r new_host then r
                 else r\<lparr>requestUrl_host := new_host\<rparr>) \<and>
         set (printf_lx digest) \<subseteq> set ''0123456789abcdef'' \<and>
         hex_value (printf_lx digest) = unat digest \<and>
         (hd (printf_lx digest) = CHR ''0'') = (printf_lx digest = ''0'') \<and>
         1 \<le> length (printf_lx digest) \<and> length (printf_lx digest) \<le> 16"
proof -
  have "res =
     \<lparr>status = (if requestUrl_refuses r new_host then TSREMAP_NO_REMAP else TSREMAP_DID_REMAP),
      rri_after = Some (if requestUrl_refuses r new_host then r
                        else r\<lparr>requestUrl_host := new_host\<rparr>),
      ih_after = Some (h\<lparr>hash := new_host @ replicate (hash_len h - length new_host) NUL\<rparr>),
      overrun = (if length new_host = hash_len h then [NUL] else [])\<rparr>"
    unfolding res_def new_host_def digest_def using assms(1) by (rule do_remap_instance_ok)
  then have "map_option hash (ih_after res) =
           Some (new_host @ replicate (hash_len h - length new_host) NUL)"
      and "status res =
           (if requestUrl_refuses r new_host then TSREMAP_NO_REMAP else TSREMAP_DID_REMAP)"
      and "rri_after res =
           Some (if requestUrl_refuses r new_host then r
                 else r\<lparr>requestUrl_host := new_host\<rparr>)"
    by simp_all
  moreover have "set (printf_lx digest) \<subseteq> set ''0123456789abcdef''"
    unfolding printf_lx_def by (rule set_lx_digits)
  moreover have "hex_value (printf_lx digest) = unat digest"
    unfolding printf_lx_def by (rule hex_value_lx_digits)
  moreover note printf_lx_leading_zero [of digest] printf_lx_length [of digest]
  ultimately show ?thesis by blast
qed

theorem remap_sets_host_to_hex_digest_dot_suffix_witness:
  "instance_ok \<lparr>isp_name = ''tlmc.isp.example'', isp_name_len = 16,
                 hash = replicate 33 NUL, hash_len = 33\<rparr> \<and>
   status (TSRemapDoRemap Char_signed
      (Some \<lparr>isp_name = ''tlmc.isp.example'', isp_name_len = 16,
              hash = replicate 33 NUL, hash_len = 33\<rparr>)
      (Some \<lparr>requestUrl_host = ''www.example'', requestUrl_path = ''/'',
              requestUrl_refuses = (\<lambda>s. False)\<rparr>)) = TSREMAP_DID_REMAP \<and>
   map_option requestUrl_host (rri_after (TSRemapDoRemap Char_signed
      (Some \<lparr>isp_name = ''tlmc.isp.example'', isp_name_len = 16,
              hash = replicate 33 NUL, hash_len = 33\<rparr>)
      (Some \<lparr>requestUrl_host = ''www.example'', requestUrl_path = ''/'',
              requestUrl_refuses = (\<lambda>s. False)\<rparr>))) =
     Some ''3e5420598f8b0541.tlmc.isp.example''"
proof -
  let ?h = "\<lparr>isp_name = ''tlmc.isp.example'', isp_name_len = 16,
               hash = replicate 33 NUL, hash_len = 33\<rparr>"
  let ?r = "\<lparr>requestUrl_host = ''www.example'', requestUrl_path = ''/'',
              requestUrl_refuses = (\<lambda>s. False)\<rparr>"
  have ok: "instance_ok ?h"
    by (simp add: instance_ok_def cstring_def NUL_def)
  have d: "hash_fnv64 Char_signed ''www.example/'' = 0x3e5420598f8b0541"
    by (simp add: hash_fnv64_def FNV1_64_INIT_def FNV_64_PRIME_def char_to_uint64_def)
  have p: "printf_lx 0x3e5420598f8b0541 = ''3e5420598f8b0541''"
    by (simp add: printf_lx_def lx_digits.simps hex_digit_def)
  show ?thesis
    using ok remap_sets_host_to_hex_digest_dot_suffix [OF ok, of Char_signed ?r]
    by (simp add: d p)
qed

text \<open>
  Claim C7. When the server refuses the new host, \<open>TSRemapDoRemap\<close> returns
  \<open>TSREMAP_NO_REMAP\<close>, and the request after the call is the request before it: host and
  path are unchanged.
\<close>

theorem remap_refused_leaves_request_unchanged:
  assumes "instance_ok h"
    and "requestUrl_refuses r
           (printf_lx (hash_fnv64 abi (requestUrl_host r @ requestUrl_path r)) @ ''.'' @
            isp_name h)"
  shows "status (TSRemapDoRemap abi (Some h) (Some r)) = TSREMAP_NO_REMAP \<and>
         rri_after (TSRemapDoRemap abi (Some h) (Some r)) = Some r"
  using assms(2) by (simp add: do_remap_instance_ok [OF assms(1)])

theorem remap_refused_leaves_request_unchanged_witness:
  "instance_ok \<lparr>isp_name = ''tlmc.isp.example'', isp_name_len = 16,
                 hash = replicate 33 NUL, hash_len = 33\<rparr> \<and>
   requestUrl_refuses
     \<lparr>requestUrl_host = ''www.example'', requestUrl_path = ''/'',
      requestUrl_refuses = (\<lambda>s. True)\<rparr>
     (printf_lx (hash_fnv64 Char_signed (''www.example'' @ ''/'')) @ ''.'' @
      ''tlmc.isp.example'') \<and>
   status (TSRemapDoRemap Char_signed
      (Some \<lparr>isp_name = ''tlmc.isp.example'', isp_name_len = 16,
              hash = replicate 33 NUL, hash_len = 33\<rparr>)
      (Some \<lparr>requestUrl_host = ''www.example'', requestUrl_path = ''/'',
              requestUrl_refuses = (\<lambda>s. True)\<rparr>)) = TSREMAP_NO_REMAP \<and>
   map_option requestUrl_host (rri_after (TSRemapDoRemap Char_signed
      (Some \<lparr>isp_name = ''tlmc.isp.example'', isp_name_len = 16,
              hash = replicate 33 NUL, hash_len = 33\<rparr>)
      (Some \<lparr>requestUrl_host = ''www.example'', requestUrl_path = ''/'',
              requestUrl_refuses = (\<lambda>s. True)\<rparr>))) = Some ''www.example''"
proof -
  let ?h = "\<lparr>isp_name = ''tlmc.isp.example'', isp_name_len = 16,
               hash = replicate 33 NUL, hash_len = 33\<rparr>"
  let ?r = "\<lparr>requestUrl_host = ''www.example'', requestUrl_path = ''/'',
              requestUrl_refuses = (\<lambda>s. True)\<rparr>"
  have ok: "instance_ok ?h"
    by (simp add: instance_ok_def cstring_def NUL_def)
  have no: "requestUrl_refuses ?r
     (printf_lx (hash_fnv64 Char_signed (requestUrl_host ?r @ requestUrl_path ?r)) @ ''.'' @
      isp_name ?h)"
    by simp
  show ?thesis
    using ok remap_refused_leaves_request_unchanged [OF ok no] by simp
qed

text \<open>
  Claim C8. When \<open>ih\<close> or \<open>rri\<close> is \<open>NULL\<close>, \<open>TSRemapDoRemap\<close> returns
  \<open>TSREMAP_NO_REMAP\<close> at once: the request and the instance are as before and nothing is
  written.
\<close>

theorem remap_null_pointer_no_remap:
  "ih = None \<or> rri = None \<Longrightarrow>
   TSRemapDoRemap abi ih rri =
     \<lparr>status = TSREMAP_NO_REMAP, rri_after = rri, ih_after = ih, overrun = []\<rparr>"
  by (auto simp: TSRemapDoRemap_def split: option.splits)

theorem remap_null_pointer_no_remap_witness:
  "TSRemapDoRemap Char_signed None
      (Some \<lparr>requestUrl_host = ''www.example'', requestUrl_path = ''/'',
              requestUrl_refuses = (\<lambda>s. False)\<rparr>) =
     \<lparr>status = TSREMAP_NO_REMAP,
      rri_after = Some \<lparr>requestUrl_host = ''www.example'', requestUrl_path = ''/'',
                         requestUrl_refuses = (\<lambda>s. False)\<rparr>,
      ih_after = None, overrun = []\<rparr> \<and>
   TSRemapDoRemap Char_signed
      (Some \<lparr>isp_name = ''tlmc.isp.example'', isp_name_len = 16,
              hash = replicate 33 NUL, hash_len = 33\<rparr>) None =
     \<lparr>status = TSREMAP_NO_REMAP, rri_after = None,
      ih_after = Some \<lparr>isp_name = ''tlmc.isp.example'', isp_name_len = 16,
                        hash = replicate 33 NUL, hash_len = 33\<rparr>,
      overrun = []\<rparr>"
  using remap_null_pointer_no_remap [of None
          "Some \<lparr>requestUrl_host = ''www.example'', requestUrl_path = ''/'',
                 requestUrl_refuses = (\<lambda>s. False)\<rparr>" Char_signed]
        remap_null_pointer_no_remap [of
          "Some \<lparr>isp_name = ''tlmc.isp.example'', isp_name_len = 16,
                 hash = replicate 33 NUL, hash_len = 33\<rparr>" None Char_signed]
  by simp

lemma store_bytes_fits:
  "length bs \<le> length block \<Longrightarrow> snd (store_bytes block bs) = []"
  by (simp add: store_bytes_def)

lemma length_store_bytes:
  "length bs \<le> length block \<Longrightarrow> length (fst (store_bytes block bs)) = length block"
  by (simp add: store_bytes_def)

text \<open>
  Claim C9. For any instance and request: if the formatted length exceeds \<open>hash_len\<close>,
  the step returns \<open>TSREMAP_NO_REMAP\<close> and the request is unchanged. The branch cannot be
  taken once \<open>hash_len\<close> is at least \<open>16 + 1 + isp_name_len\<close>. Under the sizing invariant
  of the specification (the block has \<open>hash_len\<close> bytes and
  \<open>hash_len \<ge> 16 + 1 + isp_name_len + 1\<close>) the branch cannot be taken, the text and its
  terminator fit into the block, and nothing is stored past its end.
\<close>

theorem remap_length_check:
  fixes abi :: char_sign and h :: hash_remap_struct and r :: TSRemapRequestInfo
  defines "text \<equiv> format_lx_dot_s
      (hash_fnv64_continue abi (requestUrl_path r) (hash_fnv64 abi (requestUrl_host r)))
      (isp_name_len h) (isp_name h)"
  defines "res \<equiv> TSRemapDoRemap abi (Some h) (Some r)"
  shows "(hash_len h < length text \<longrightarrow>
            status res = TSREMAP_NO_REMAP \<and> rri_after res = Some r) \<and>
         (16 + 1 + isp_name_len h \<le> hash_len h \<longrightarrow> \<not> hash_len h < length text) \<and>
         (length (hash h) = hash_len h \<and> 16 + 1 + isp_name_len h + 1 \<le> hash_len h \<longrightarrow>
            \<not> hash_len h < length text \<and> length (text @ [NUL]) \<le> length (hash h) \<and>
            overrun res = [])"
proof -
  have check: "status res = TSREMAP_NO_REMAP \<and> rri_after res = Some r"
    if "hash_len h < length text"
    using that
    by (simp add: res_def text_def TSRemapDoRemap_def TSUrlHostGet_def TSUrlPathGet_def
        sprintf_lx_dot_s_def Let_def split: prod.splits)
  have bound: "length text \<le> 16 + 1 + isp_name_len h"
    unfolding text_def by (rule format_lx_dot_s_length)
  have sized: "length text < hash_len h \<and> overrun res = []"
    if inv: "length (hash h) = hash_len h \<and> 16 + 1 + isp_name_len h + 1 \<le> hash_len h"
  proof -
    have "length text \<le> 16 + 1 + isp_name_len h"
      unfolding text_def by (rule format_lx_dot_s_length)
    with inv have fits: "length text < hash_len h" by simp
    have clear: "memset_zero (hash h) (hash_len h) = (replicate (hash_len h) NUL, [])"
      using inv memset_zero_whole [of "hash h"] by simp
    have "snd (store_bytes (replicate (hash_len h) NUL) (text @ [NUL])) = []"
      using fits by (simp add: store_bytes_fits)
    then have "overrun res = []"
      using fits
      by (auto simp add: res_def TSRemapDoRemap_def TSUrlHostGet_def TSUrlPathGet_def clear
          sprintf_lx_dot_s_def Let_def TSUrlHostSet_def simp flip: text_def
          split: prod.splits)
    with fits show ?thesis by simp
  qed
  from check bound sized show ?thesis by fastforce
qed


theorem remap_length_check_witness:
  "hash_len \<lparr>isp_name = ''tlmc.isp.example'', isp_name_len = 16,
              hash = replicate 8 NUL, hash_len = 8\<rparr> <
     length (format_lx_dot_s (hash_fnv64_continue Char_signed ''/''
        (hash_fnv64 Char_signed ''www.example'')) 16 ''tlmc.isp.example'') \<and>
   status (TSRemapDoRemap Char_signed
      (Some \<lparr>isp_name = ''tlmc.isp.example'', isp_name_len = 16,
              hash = replicate 8 NUL, hash_len = 8\<rparr>)
      (Some \<lparr>requestUrl_host = ''www.example'', requestUrl_path = ''/'',
              requestUrl_refuses = (\<lambda>s. False)\<rparr>)) = TSREMAP_NO_REMAP \<and>
   map_option requestUrl_host (rri_after (TSRemapDoRemap Char_signed
      (Some \<lparr>isp_name = ''tlmc.isp.example'', isp_name_len = 16,
              hash = replicate 8 NUL, hash_len = 8\<rparr>)
      (Some \<lparr>requestUrl_host = ''www.example'', requestUrl_path = ''/'',
              requestUrl_refuses = (\<lambda>s. False)\<rparr>))) = Some ''www.example'' \<and>
   instance_ok \<lparr>isp_name = ''tlmc.isp.example'', isp_name_len = 16,
                 hash = replicate 33 NUL, hash_len = 33\<rparr> \<and>
   \<not> 33 < length (format_lx_dot_s (hash_fnv64_continue Char_signed ''/''
        (hash_fnv64 Char_signed ''www.example'')) 16 ''tlmc.isp.example'') \<and>
   length (hash \<lparr>isp_name = ''tlmc.isp.example'', isp_name_len = 16,
                  hash = replicate 34 NUL, hash_len = 34\<rparr>) = 34 \<and>
   16 + 1 + (16::nat) + 1 \<le> 34 \<and>
   overrun (TSRemapDoRemap Char_signed
      (Some \<lparr>isp_name = ''tlmc.isp.example'', isp_name_len = 16,
              hash = replicate 34 NUL, hash_len = 34\<rparr>)
      (Some \<lparr>requestUrl_host = ''www.example'', requestUrl_path = ''/'',
              requestUrl_refuses = (\<lambda>s. False)\<rparr>)) = []"
proof -
  let ?small = "\<lparr>isp_name = ''tlmc.isp.example'', isp_name_len = 16,
                   hash = replicate 8 NUL, hash_len = 8\<rparr>"
  let ?built = "\<lparr>isp_name = ''tlmc.isp.example'', isp_name_len = 16,
                   hash = replicate 33 NUL, hash_len = 33\<rparr>"
  let ?sized = "\<lparr>isp_name = ''tlmc.isp.example'', isp_name_len = 16,
                   hash = replicate 34 NUL, hash_len = 34\<rparr>"
  let ?r = "\<lparr>requestUrl_host = ''www.example'', requestUrl_path = ''/'',
              requestUrl_refuses = (\<lambda>s. False)\<rparr>"
  have long: "hash_len ?small <
     length (format_lx_dot_s (hash_fnv64_continue Char_signed ''/''
        (hash_fnv64 Char_signed ''www.example'')) 16 ''tlmc.isp.example'')"
    by (simp add: format_lx_dot_s_def cstring_def NUL_def)
  have ok: "instance_ok ?built"
    by (simp add: instance_ok_def cstring_def NUL_def)
  show ?thesis
    using long ok remap_length_check [of ?small Char_signed ?r]
      remap_length_check [of ?built Char_signed ?r]
      remap_length_check [of ?sized Char_signed ?r]
    by simp
qed

end
